theory Spec2Isabelle
  imports Complex_Main
begin

section \<open>Synthetic micro-mobility demand generator\<close>

text \<open>
  A shallow embedding of \<^verbatim>\<open>src/data_collection/synthetic_data_generator.py\<close>
  (class \<^verbatim>\<open>MicroMobilityDataGenerator\<close>).

  Conventions of the embedding.
  \<^item> Python floats are modelled as \<open>real\<close>: the rounding of IEEE arithmetic is not part
    of the model. Python integers are \<open>int\<close>, Python strings are \<open>string\<close>.
  \<^item> A pandas \<^verbatim>\<open>Timestamp\<close> is an \<open>int\<close>, the number of seconds since
    1970-01-01 00:00; the calendar fields (\<^verbatim>\<open>.hour\<close>, \<^verbatim>\<open>.weekday()\<close>,
    \<^verbatim>\<open>.month\<close>, \<^verbatim>\<open>.day\<close>, \<^verbatim>\<open>.dt.date\<close>) are computed from it in the
    proleptic Gregorian calendar. \<^verbatim>\<open>start_date\<close> and \<^verbatim>\<open>end_date\<close> are taken
    as already parsed instants (a date-only string is midnight of that date).
  \<^item> Exceptions are values: a method that can raise returns \<open>py_error + 'a\<close>.
  \<^item> The two global random streams (the module \<^verbatim>\<open>random\<close> and
    \<^verbatim>\<open>numpy.random\<close>) are an explicit state \<open>rng\<close> passed through every
    stochastic method and returned updated. The streams themselves are arbitrary.
  \<^item> A method name that starts with an underscore loses it (\<^verbatim>\<open>_is_holiday\<close> is
    \<open>is_holiday\<close>); the \<^verbatim>\<open>print\<close> calls have no counterpart.
\<close>

subsection \<open>Exceptions\<close>

datatype py_error = KeyError | ValueError | ZeroDivisionError | IndexError

subsection \<open>The random streams\<close>

text \<open>
  \<open>py_stream\<close> is the sequence of raw draws of Python's \<^verbatim>\<open>random\<close> module and
  \<open>py_used\<close> the number of draws consumed so far; every call of the module consumes one
  raw draw. \<open>np_stream\<close> is the sequence of values that successive calls of
  \<^verbatim>\<open>np.random.poisson\<close> return; it is any sequence of integers, so nothing below
  relies on the support of the Poisson distribution.
\<close>

record rng =
  py_stream :: "nat \<Rightarrow> nat"
  py_used :: nat
  np_stream :: "nat \<Rightarrow> int"
  np_used :: nat

definition py_raw :: "rng \<Rightarrow> nat \<times> rng" where
  "py_raw g = (py_stream g (py_used g), g\<lparr>py_used := Suc (py_used g)\<rparr>)"

text \<open>\<^verbatim>\<open>random.random()\<close>: a float \<open>k / 2^53\<close> with \<open>0 \<le> k < 2^53\<close>.\<close>

definition random_random :: "rng \<Rightarrow> real \<times> rng" where
  "random_random g = (case py_raw g of (k, g') \<Rightarrow> (real (k mod 2 ^ 53) / 2 ^ 53, g'))"

text \<open>\<^verbatim>\<open>random.uniform(a, b)\<close> is \<^verbatim>\<open>a + (b - a) * self.random()\<close>.\<close>

definition random_uniform :: "real \<Rightarrow> real \<Rightarrow> rng \<Rightarrow> real \<times> rng" where
  "random_uniform a b g = (case random_random g of (u, g') \<Rightarrow> (a + (b - a) * u, g'))"

text \<open>\<^verbatim>\<open>random.choice(seq)\<close> raises \<^verbatim>\<open>IndexError\<close> on an empty sequence and
  otherwise returns \<^verbatim>\<open>seq[self._randbelow(len(seq))]\<close>.\<close>

definition random_choice :: "'a list \<Rightarrow> rng \<Rightarrow> py_error + ('a \<times> rng)" where
  "random_choice xs g =
     (if xs = [] then Inl IndexError
      else case py_raw g of (k, g') \<Rightarrow> Inr (xs ! (k mod length xs), g'))"

text \<open>\<^verbatim>\<open>random.randint(a, b)\<close> is \<^verbatim>\<open>randrange(a, b + 1)\<close>; an empty range is a
  \<^verbatim>\<open>ValueError\<close>.\<close>

definition random_randint :: "int \<Rightarrow> int \<Rightarrow> rng \<Rightarrow> py_error + (int \<times> rng)" where
  "random_randint a b g =
     (if b < a then Inl ValueError
      else case py_raw g of (k, g') \<Rightarrow> Inr (a + int k mod (b - a + 1), g'))"

text \<open>\<^verbatim>\<open>np.random.poisson(lam)\<close> raises \<^verbatim>\<open>ValueError\<close> for a negative
  \<^verbatim>\<open>lam\<close>; otherwise it returns the next sample.\<close>

definition np_random_poisson :: "real \<Rightarrow> rng \<Rightarrow> py_error + (int \<times> rng)" where
  "np_random_poisson lam g =
     (if lam < 0 then Inl ValueError
      else Inr (np_stream g (np_used g), g\<lparr>np_used := Suc (np_used g)\<rparr>))"

subsection \<open>Timestamps\<close>

type_synonym timestamp = int

definition ts_hour :: "timestamp \<Rightarrow> int" where
  "ts_hour t = (t div 3600) mod 24"

text \<open>\<^verbatim>\<open>.dt.date\<close>: the calendar date, as the number of days since 1970-01-01.\<close>

definition ts_date :: "timestamp \<Rightarrow> int" where
  "ts_date t = t div 86400"

text \<open>\<^verbatim>\<open>.weekday()\<close>: Monday is 0; 1970-01-01 was a Thursday.\<close>

definition ts_weekday :: "timestamp \<Rightarrow> int" where
  "ts_weekday t = (ts_date t + 3) mod 7"

text \<open>Year, month and day of a day number, in the proleptic Gregorian calendar.\<close>

definition civil_from_days :: "int \<Rightarrow> int \<times> int \<times> int" where
  "civil_from_days z =
     (let z' = z + 719468;
          era = z' div 146097;
          doe = z' mod 146097;
          yoe = (doe - doe div 1460 + doe div 36524 - doe div 146096) div 365;
          doy = doe - (365 * yoe + yoe div 4 - yoe div 100);
          mp = (5 * doy + 2) div 153;
          d = doy - (153 * mp + 2) div 5 + 1;
          m = (if mp < 10 then mp + 3 else mp - 9);
          y = yoe + era * 400 + (if m \<le> 2 then 1 else 0)
      in (y, m, d))"

definition ts_month :: "timestamp \<Rightarrow> int" where
  "ts_month t = fst (snd (civil_from_days (ts_date t)))"

definition ts_day :: "timestamp \<Rightarrow> int" where
  "ts_day t = snd (snd (civil_from_days (ts_date t)))"

text \<open>
  \<^verbatim>\<open>pd.date_range(start, end, freq='H')\<close>: the instants \<open>start + k\<close> hours that are
  not after \<open>end\<close>, in increasing order; empty when \<open>end\<close> is before \<open>start\<close>.
\<close>

definition date_range :: "timestamp \<Rightarrow> timestamp \<Rightarrow> timestamp list" where
  "date_range start stop =
     (if stop < start then []
      else map (\<lambda>k. start + 3600 * int k) [0..<Suc (nat ((stop - start) div 3600))])"

subsection \<open>Demand patterns\<close>

record pattern =
  peak_hours :: "int list"
  base_demand :: real

text \<open>\<^verbatim>\<open>self.base_patterns\<close>, assigned once in \<^verbatim>\<open>__init__\<close> and never changed.
  The dictionary is looked up with \<open>map_of\<close>.\<close>

definition base_patterns :: "(string \<times> pattern) list" where
  "base_patterns =
     [(''business_district'', \<lparr>peak_hours = [8, 9, 17, 18], base_demand = 25\<rparr>),
      (''residential'', \<lparr>peak_hours = [7, 8, 18, 19], base_demand = 15\<rparr>),
      (''tourist'', \<lparr>peak_hours = [10, 11, 14, 15], base_demand = 20\<rparr>),
      (''transport_hub'', \<lparr>peak_hours = [6, 7, 8, 17, 18, 19], base_demand = 30\<rparr>),
      (''educational'', \<lparr>peak_hours = [8, 9, 16, 17], base_demand = 18\<rparr>)]"

text \<open>The peak hour multiplier of \<^verbatim>\<open>_calculate_base_demand\<close>.\<close>

definition peak_multiplier :: "pattern \<Rightarrow> int \<Rightarrow> real" where
  "peak_multiplier p hour =
     (if hour \<in> set (peak_hours p) then 1.5
      else if hour \<in> set (map (\<lambda>h. h + 1) (peak_hours p))
              \<or> hour \<in> set (map (\<lambda>h. h - 1) (peak_hours p)) then 1.2
      else if 6 \<le> hour \<and> hour \<le> 22 then 1.0
      else 0.3)"

text \<open>The weekend adjustment of \<^verbatim>\<open>_calculate_base_demand\<close>, applied to the
  multiplier.\<close>

definition weekend_adjust :: "int \<Rightarrow> string \<Rightarrow> real \<Rightarrow> real" where
  "weekend_adjust day_of_week area multiplier =
     (if day_of_week \<ge> 5 then
        (if area \<in> set [''business_district'', ''educational''] then multiplier * 0.6
         else if area = ''tourist'' then multiplier * 1.3
         else multiplier)
      else multiplier)"

definition calculate_base_demand :: "int \<Rightarrow> int \<Rightarrow> string \<Rightarrow> py_error + real" where
  "calculate_base_demand hour day_of_week area =
     (case map_of base_patterns area of
        None \<Rightarrow> Inl KeyError
      | Some p \<Rightarrow>
          Inr (base_demand p * weekend_adjust day_of_week area (peak_multiplier p hour)))"

subsection \<open>Weather, season, events, holidays\<close>

definition temp_factor :: "int \<Rightarrow> real" where
  "temp_factor month =
     (if month \<in> set [5, 6, 7] then 0.7
      else if month \<in> set [12, 1, 2] then 0.8
      else 1.0)"

definition rain_factor :: "int \<Rightarrow> rng \<Rightarrow> real \<times> rng" where
  "rain_factor month g =
     (if month \<in> set [7, 8, 9] then
        (case random_random g of (u, g') \<Rightarrow> (if u < 0.3 then 0.4 else 1.0, g'))
      else (1.0, g))"

definition aqi_factor :: "int \<Rightarrow> real" where
  "aqi_factor month = (if month \<in> set [10, 11, 12, 1] then 0.9 else 1.0)"

definition get_weather_factor :: "timestamp \<Rightarrow> rng \<Rightarrow> real \<times> rng" where
  "get_weather_factor t g =
     (let month = ts_month t in
      case rain_factor month g of
        (rf, g') \<Rightarrow> (temp_factor month * rf * aqi_factor month, g'))"

definition get_seasonal_factor :: "timestamp \<Rightarrow> real" where
  "get_seasonal_factor t =
     (let month = ts_month t in
      if month \<in> set [10, 11, 3, 4] then 1.2
      else if month \<in> set [5, 6] then 0.8
      else if month \<in> set [7, 8] then 0.9
      else 1.0)"

definition get_event_factor :: "timestamp \<Rightarrow> rng \<Rightarrow> real \<times> rng" where
  "get_event_factor t g =
     (case random_random g of
        (u, g') \<Rightarrow> if u < 0.05 then random_uniform 1.2 1.8 g' else (1.0, g'))"

definition is_holiday :: "timestamp \<Rightarrow> bool" where
  "is_holiday t = ((ts_month t, ts_day t) \<in> set [(1, 26), (8, 15), (10, 2), (12, 25)])"

definition get_weather_condition :: "real \<Rightarrow> real \<Rightarrow> string" where
  "get_weather_condition temp precipitation =
     (if precipitation > 5 then ''rainy''
      else if temp > 35 then ''hot''
      else if temp < 15 then ''cold''
      else ''pleasant'')"

subsection \<open>Station registry\<close>

record anchor =
  anchor_name :: string
  anchor_lat :: real
  anchor_lon :: real
  anchor_type :: string

definition major_areas :: "anchor list" where
  "major_areas =
     [\<lparr>anchor_name = ''Connaught Place'', anchor_lat = 28.6315, anchor_lon = 77.2167,
        anchor_type = ''business_district''\<rparr>,
      \<lparr>anchor_name = ''India Gate'', anchor_lat = 28.6129, anchor_lon = 77.2295,
        anchor_type = ''tourist''\<rparr>,
      \<lparr>anchor_name = ''Red Fort'', anchor_lat = 28.6562, anchor_lon = 77.2410,
        anchor_type = ''tourist''\<rparr>,
      \<lparr>anchor_name = ''Karol Bagh'', anchor_lat = 28.6519, anchor_lon = 77.1909,
        anchor_type = ''business_district''\<rparr>,
      \<lparr>anchor_name = ''Lajpat Nagar'', anchor_lat = 28.5677, anchor_lon = 77.2353,
        anchor_type = ''residential''\<rparr>,
      \<lparr>anchor_name = ''Dwarka'', anchor_lat = 28.5921, anchor_lon = 77.0460,
        anchor_type = ''residential''\<rparr>,
      \<lparr>anchor_name = ''Gurgaon Border'', anchor_lat = 28.4595, anchor_lon = 77.0266,
        anchor_type = ''transport_hub''\<rparr>,
      \<lparr>anchor_name = ''Delhi University'', anchor_lat = 28.6857, anchor_lon = 77.2085,
        anchor_type = ''educational''\<rparr>,
      \<lparr>anchor_name = ''JNU'', anchor_lat = 28.5383, anchor_lon = 77.1641,
        anchor_type = ''educational''\<rparr>,
      \<lparr>anchor_name = ''Chandni Chowk'', anchor_lat = 28.6506, anchor_lon = 77.2334,
        anchor_type = ''business_district''\<rparr>]"

record station =
  station_id :: int
  name :: string
  latitude :: real
  longitude :: real
  area_type :: string
  base_area :: string

text \<open>\<^verbatim>\<open>str(i)\<close> for an integer, in decimal.\<close>

fun str_nat :: "nat \<Rightarrow> string" where
  "str_nat n =
     (if n < 10 then [char_of (48 + n)]
      else str_nat (n div 10) @ [char_of (48 + n mod 10)])"

definition str_int :: "int \<Rightarrow> string" where
  "str_int i = (if i < 0 then CHR ''-'' # str_nat (nat (- i)) else str_nat (nat i))"

text \<open>\<^verbatim>\<open>s.replace(' ', '_')\<close>.\<close>

definition replace_space :: "string \<Rightarrow> string" where
  "replace_space s = map (\<lambda>c. if c = CHR '' '' then CHR ''_'' else c) s"

text \<open>The body of the loop of \<^verbatim>\<open>_generate_station_locations\<close> for index \<open>i\<close>.\<close>

definition make_station :: "int \<Rightarrow> rng \<Rightarrow> py_error + (station \<times> rng)" where
  "make_station i g =
     (case random_choice major_areas g of
        Inl e \<Rightarrow> Inl e
      | Inr (base, g1) \<Rightarrow>
          (case random_uniform (- 0.02) 0.02 g1 of
             (lat_offset, g2) \<Rightarrow>
               (case random_uniform (- 0.02) 0.02 g2 of
                  (lon_offset, g3) \<Rightarrow>
                    Inr (\<lparr>station_id = i,
                          name = ''Station_'' @ str_int i @ ''_''
                                   @ replace_space (anchor_name base),
                          latitude = anchor_lat base + lat_offset,
                          longitude = anchor_lon base + lon_offset,
                          area_type = anchor_type base,
                          base_area = anchor_name base\<rparr>, g3))))"

text \<open>The loop over \<^verbatim>\<open>range(self.num_stations)\<close>, given as the list of its indices.\<close>

fun stations_loop :: "int list \<Rightarrow> rng \<Rightarrow> py_error + (station list \<times> rng)" where
  "stations_loop [] g = Inr ([], g)"
| "stations_loop (i # is) g =
     (case make_station i g of
        Inl e \<Rightarrow> Inl e
      | Inr (s, g1) \<Rightarrow>
          (case stations_loop is g1 of
             Inl e \<Rightarrow> Inl e
           | Inr (ss, g2) \<Rightarrow> Inr (s # ss, g2)))"

definition generate_station_locations :: "int \<Rightarrow> rng \<Rightarrow> py_error + (station list \<times> rng)" where
  "generate_station_locations n g = stations_loop (map int [0..<nat n]) g"

subsection \<open>The generator object\<close>

record generator =
  start_date :: timestamp
  end_date :: timestamp
  num_stations :: int
  city_name :: string
  station_locations :: "station list"

text \<open>\<^verbatim>\<open>__init__\<close>: stores the arguments and builds the station registry.\<close>

definition init :: "timestamp \<Rightarrow> timestamp \<Rightarrow> int \<Rightarrow> string \<Rightarrow> rng
    \<Rightarrow> py_error + (generator \<times> rng)" where
  "init start stop n city g =
     (case generate_station_locations n g of
        Inl e \<Rightarrow> Inl e
      | Inr (locs, g') \<Rightarrow>
          Inr (\<lparr>start_date = start, end_date = stop, num_stations = n, city_name = city,
                station_locations = locs\<rparr>, g'))"

subsection \<open>Trip data\<close>

record trip =
  trip_timestamp :: timestamp
  trip_station_id :: int
  trip_station_name :: string
  trip_latitude :: real
  trip_longitude :: real
  trip_area_type :: string
  trip_count :: int
  trip_hour :: int
  trip_day_of_week :: int
  trip_month :: int
  trip_is_weekend :: bool
  trip_is_holiday :: bool
  trip_weather_factor :: real
  trip_seasonal_factor :: real
  trip_event_factor :: real

text \<open>The body of the loop over the stations, for one station: the demand of the
  station, the Poisson sample, and the row appended to \<^verbatim>\<open>trips\<close>.\<close>

definition make_trip :: "timestamp \<Rightarrow> real \<Rightarrow> real \<Rightarrow> real \<Rightarrow> station \<Rightarrow> rng
    \<Rightarrow> py_error + (trip \<times> rng)" where
  "make_trip t weather_factor seasonal_factor event_factor station_info g =
     (let hour = ts_hour t; day_of_week = ts_weekday t; month = ts_month t in
      case calculate_base_demand hour day_of_week (area_type station_info) of
        Inl e \<Rightarrow> Inl e
      | Inr base \<Rightarrow>
          (let final_demand = base * weather_factor * seasonal_factor * event_factor in
           case np_random_poisson final_demand g of
             Inl e \<Rightarrow> Inl e
           | Inr (sample, g') \<Rightarrow>
               Inr (\<lparr>trip_timestamp = t,
                     trip_station_id = station_id station_info,
                     trip_station_name = name station_info,
                     trip_latitude = latitude station_info,
                     trip_longitude = longitude station_info,
                     trip_area_type = area_type station_info,
                     trip_count = max 0 sample,
                     trip_hour = hour,
                     trip_day_of_week = day_of_week,
                     trip_month = month,
                     trip_is_weekend = (day_of_week \<ge> 5),
                     trip_is_holiday = is_holiday t,
                     trip_weather_factor = weather_factor,
                     trip_seasonal_factor = seasonal_factor,
                     trip_event_factor = event_factor\<rparr>, g')))"

text \<open>The loop over \<^verbatim>\<open>self.station_locations\<close> for one timestamp: the rows it
  appends, in order.\<close>

fun station_rows :: "timestamp \<Rightarrow> real \<Rightarrow> real \<Rightarrow> real \<Rightarrow> station list \<Rightarrow> rng
    \<Rightarrow> py_error + (trip list \<times> rng)" where
  "station_rows t wfac sfac efac [] g = Inr ([], g)"
| "station_rows t wfac sfac efac (s # ss) g =
     (case make_trip t wfac sfac efac s g of
        Inl e \<Rightarrow> Inl e
      | Inr (row, g1) \<Rightarrow>
          (case station_rows t wfac sfac efac ss g1 of
             Inl e \<Rightarrow> Inl e
           | Inr (rows, g2) \<Rightarrow> Inr (row # rows, g2)))"

text \<open>
  The loop over \<^verbatim>\<open>date_range\<close>. \<open>processed\<close> is the counter of that name. The
  progress indicator divides by \<^verbatim>\<open>total_records\<close> whenever \<open>processed\<close> is a
  multiple of 10000, which raises \<^verbatim>\<open>ZeroDivisionError\<close> when
  \<^verbatim>\<open>total_records\<close> is 0. The three factors are computed once, before the loop
  over the stations.
\<close>

fun timestamp_rows :: "station list \<Rightarrow> int \<Rightarrow> timestamp list \<Rightarrow> int \<Rightarrow> rng
    \<Rightarrow> py_error + (trip list \<times> rng)" where
  "timestamp_rows locs total_records [] processed g = Inr ([], g)"
| "timestamp_rows locs total_records (t # ts) processed g =
     (if processed mod 10000 = 0 \<and> total_records = 0 then Inl ZeroDivisionError
      else
        case get_weather_factor t g of
          (weather_factor, g1) \<Rightarrow>
            (let seasonal_factor = get_seasonal_factor t in
             case get_event_factor t g1 of
               (event_factor, g2) \<Rightarrow>
                 (case station_rows t weather_factor seasonal_factor event_factor locs g2 of
                    Inl e \<Rightarrow> Inl e
                  | Inr (rows, g3) \<Rightarrow>
                      (case timestamp_rows locs total_records ts
                              (processed + int (length locs)) g3 of
                         Inl e \<Rightarrow> Inl e
                       | Inr (rest, g4) \<Rightarrow> Inr (rows @ rest, g4)))))"

text \<open>\<^verbatim>\<open>generate_trip_data\<close>: the returned data frame is the list of its rows.\<close>

definition generate_trip_data :: "generator \<Rightarrow> rng \<Rightarrow> py_error + (trip list \<times> rng)" where
  "generate_trip_data self g =
     (let dr = date_range (start_date self) (end_date self);
          total_records = int (length dr) * num_stations self
      in timestamp_rows (station_locations self) total_records dr 0 g)"

subsection \<open>Events data\<close>

record event =
  event_date :: int
  event_type :: string
  event_name :: string
  expected_attendance :: int
  location :: string

definition event_types :: "string list" where
  "event_types = [''concert'', ''festival'', ''sports'', ''conference'', ''exhibition'']"

text \<open>\<^verbatim>\<open>Series.unique()\<close>: the distinct values in order of first appearance.\<close>

definition unique :: "'a list \<Rightarrow> 'a list" where
  "unique xs = rev (remdups (rev xs))"

text \<open>\<^verbatim>\<open>str.title()\<close> on ASCII text: the first letter of every run of letters in
  upper case, the others in lower case.\<close>

definition is_upper :: "char \<Rightarrow> bool" where
  "is_upper c = (65 \<le> (of_char c :: nat) \<and> (of_char c :: nat) \<le> 90)"

definition is_lower :: "char \<Rightarrow> bool" where
  "is_lower c = (97 \<le> (of_char c :: nat) \<and> (of_char c :: nat) \<le> 122)"

definition to_upper :: "char \<Rightarrow> char" where
  "to_upper c = (if is_lower c then char_of ((of_char c :: nat) - 32) else c)"

definition to_lower :: "char \<Rightarrow> char" where
  "to_lower c = (if is_upper c then char_of ((of_char c :: nat) + 32) else c)"

fun title_from :: "bool \<Rightarrow> string \<Rightarrow> string" where
  "title_from prev_cased [] = []"
| "title_from prev_cased (c # cs) =
     (if is_upper c \<or> is_lower c
      then (if prev_cased then to_lower c else to_upper c) # title_from True cs
      else c # title_from False cs)"

definition title :: "string \<Rightarrow> string" where
  "title s = title_from False s"

text \<open>The body of the loop over \<^verbatim>\<open>unique_dates\<close> for one date: the rows it appends
  (none or one). The entries of the row are evaluated in the order in which they are
  written.\<close>

definition make_event :: "station list \<Rightarrow> int \<Rightarrow> rng \<Rightarrow> py_error + (event list \<times> rng)" where
  "make_event locs date g =
     (case random_random g of
        (u, g1) \<Rightarrow>
          if u < 0.1 then
            (case random_choice event_types g1 of
               Inl e \<Rightarrow> Inl e
             | Inr (ty, g2) \<Rightarrow>
                 (case random_choice event_types g2 of
                    Inl e \<Rightarrow> Inl e
                  | Inr (ty', g3) \<Rightarrow>
                      (case random_randint 1000 50000 g3 of
                         Inl e \<Rightarrow> Inl e
                       | Inr (att, g4) \<Rightarrow>
                           (case random_choice (map base_area locs) g4 of
                              Inl e \<Rightarrow> Inl e
                            | Inr (loc, g5) \<Rightarrow>
                                Inr ([\<lparr>event_date = date,
                                       event_type = ty,
                                       event_name = ''Delhi '' @ title ty' @ '' Event'',
                                       expected_attendance = att,
                                       location = loc\<rparr>], g5)))))
          else Inr ([], g1))"

fun events_loop :: "station list \<Rightarrow> int list \<Rightarrow> rng \<Rightarrow> py_error + (event list \<times> rng)" where
  "events_loop locs [] g = Inr ([], g)"
| "events_loop locs (d # ds) g =
     (case make_event locs d g of
        Inl e \<Rightarrow> Inl e
      | Inr (evs, g1) \<Rightarrow>
          (case events_loop locs ds g1 of
             Inl e \<Rightarrow> Inl e
           | Inr (rest, g2) \<Rightarrow> Inr (evs @ rest, g2)))"

text \<open>
  \<^verbatim>\<open>generate_events_data\<close>. The trip table is the data frame built from the list
  of rows: built from an empty list it has no column, and
  \<^verbatim>\<open>trip_data['timestamp']\<close> raises \<^verbatim>\<open>KeyError\<close>.
\<close>

definition generate_events_data :: "generator \<Rightarrow> trip list \<Rightarrow> rng
    \<Rightarrow> py_error + (event list \<times> rng)" where
  "generate_events_data self trip_data g =
     (if trip_data = [] then Inl KeyError
      else
        let unique_dates = unique (map (\<lambda>r. ts_date (trip_timestamp r)) trip_data)
        in events_loop (station_locations self) unique_dates g)"

subsection \<open>The first two steps of \<^verbatim>\<open>main\<close>\<close>

text \<open>\<^verbatim>\<open>generator = MicroMobilityDataGenerator(...)\<close> followed by
  \<^verbatim>\<open>generator.generate_trip_data()\<close>.\<close>

definition run_trip_data :: "timestamp \<Rightarrow> timestamp \<Rightarrow> int \<Rightarrow> string \<Rightarrow> rng
    \<Rightarrow> py_error + (trip list \<times> rng)" where
  "run_trip_data start stop n city g =
     (case init start stop n city g of
        Inl e \<Rightarrow> Inl e
      | Inr (self, g') \<Rightarrow> generate_trip_data self g')"

section \<open>The specification's vocabulary\<close>

text \<open>
  The hour multiplier and the weekend multiplier as the specification words them: an
  hour is adjacent to a peak when it is exactly one hour after or before some peak hour.
\<close>

definition spec_hour_multiplier :: "pattern \<Rightarrow> int \<Rightarrow> real" where
  "spec_hour_multiplier p hour =
     (if hour \<in> set (peak_hours p) then 1.5
      else if list_ex (\<lambda>h. hour = h + 1 \<or> hour = h - 1) (peak_hours p) then 1.2
      else if 6 \<le> hour \<and> hour \<le> 22 then 1.0
      else 0.3)"

definition spec_weekend_multiplier :: "int \<Rightarrow> string \<Rightarrow> real" where
  "spec_weekend_multiplier day_of_week area =
     (if day_of_week \<ge> 5 then
        (if area = ''business_district'' \<or> area = ''educational'' then 0.6
         else if area = ''tourist'' then 1.3
         else 1)
      else 1)"

text \<open>The four hour classes of an archetype profile.\<close>

definition exact_peak :: "pattern \<Rightarrow> int \<Rightarrow> bool" where
  "exact_peak p hour = (hour \<in> set (peak_hours p))"

definition peak_adjacent :: "pattern \<Rightarrow> int \<Rightarrow> bool" where
  "peak_adjacent p hour =
     (\<not> exact_peak p hour \<and> list_ex (\<lambda>h. hour = h + 1 \<or> hour = h - 1) (peak_hours p))"

definition generic_daytime :: "pattern \<Rightarrow> int \<Rightarrow> bool" where
  "generic_daytime p hour =
     (\<not> exact_peak p hour \<and> \<not> list_ex (\<lambda>h. hour = h + 1 \<or> hour = h - 1) (peak_hours p)
      \<and> 6 \<le> hour \<and> hour \<le> 22)"

definition night_hour :: "pattern \<Rightarrow> int \<Rightarrow> bool" where
  "night_hour p hour =
     (\<not> exact_peak p hour \<and> \<not> list_ex (\<lambda>h. hour = h + 1 \<or> hour = h - 1) (peak_hours p)
      \<and> \<not> (6 \<le> hour \<and> hour \<le> 22))"

text \<open>The key of a trip row, and the three factors it carries.\<close>

definition trip_key :: "trip \<Rightarrow> timestamp \<times> int" where
  "trip_key r = (trip_timestamp r, trip_station_id r)"

definition trip_factors :: "trip \<Rightarrow> real \<times> real \<times> real" where
  "trip_factors r = (trip_weather_factor r, trip_seasonal_factor r, trip_event_factor r)"

text \<open>The number of rows of a result, or its exception.\<close>

definition row_count :: "py_error + (trip list \<times> rng) \<Rightarrow> py_error + nat" where
  "row_count r = (case r of Inl e \<Rightarrow> Inl e | Inr (rows, g) \<Rightarrow> Inr (length rows))"

section \<open>Sample inputs\<close>

text \<open>
  A state of the random streams in which every raw draw of \<^verbatim>\<open>random\<close> is 0 and the
  Poisson samples are -3, 4, 11, ...; \<open>k\<close> draws and \<open>j\<close> samples have been consumed.
  With it a generator of two stations for the single instant 2024-01-01 00:00
  (1704067200 seconds), the rows and the events it produces.
\<close>

definition sample_rng_at :: "nat \<Rightarrow> nat \<Rightarrow> rng" where
  "sample_rng_at k j = \<lparr>py_stream = (\<lambda>_. 0), py_used = k,
     np_stream = (\<lambda>i. 7 * int i - 3), np_used = j\<rparr>"

definition sample_station :: "int \<Rightarrow> string \<Rightarrow> station" where
  "sample_station i nm = \<lparr>station_id = i, name = nm, latitude = 28.6115,
     longitude = 77.1967, area_type = ''business_district'',
     base_area = ''Connaught Place''\<rparr>"

definition sample_generator :: generator where
  "sample_generator = \<lparr>start_date = 1704067200, end_date = 1704067200, num_stations = 2,
     city_name = ''Delhi'',
     station_locations = [sample_station 0 ''Station_0_Connaught_Place'',
                          sample_station 1 ''Station_1_Connaught_Place'']\<rparr>"

definition sample_trip :: "int \<Rightarrow> string \<Rightarrow> int \<Rightarrow> trip" where
  "sample_trip i nm n = \<lparr>trip_timestamp = 1704067200, trip_station_id = i,
     trip_station_name = nm, trip_latitude = 28.6115, trip_longitude = 77.1967,
     trip_area_type = ''business_district'', trip_count = n, trip_hour = 0,
     trip_day_of_week = 0, trip_month = 1, trip_is_weekend = False,
     trip_is_holiday = False, trip_weather_factor = 0.72, trip_seasonal_factor = 1,
     trip_event_factor = 1.2\<rparr>"

definition sample_trips :: "trip list" where
  "sample_trips = [sample_trip 0 ''Station_0_Connaught_Place'' 0,
                   sample_trip 1 ''Station_1_Connaught_Place'' 4]"

definition sample_event :: "int \<Rightarrow> event" where
  "sample_event d = \<lparr>event_date = d, event_type = ''concert'',
     event_name = ''Delhi Concert Event'', expected_attendance = 1000,
     location = ''Connaught Place''\<rparr>"

section \<open>Base demand\<close>

lemma peak_multiplier_spec: "peak_multiplier p hour = spec_hour_multiplier p hour"
  unfolding peak_multiplier_def spec_hour_multiplier_def list_ex_iff
  by (auto simp: image_iff)

lemma weekend_adjust_spec:
  "weekend_adjust dow area m = m * spec_weekend_multiplier dow area"
  by (simp add: weekend_adjust_def spec_weekend_multiplier_def)

lemma base_demand_positive: "map_of base_patterns a = Some p \<Longrightarrow> 0 < base_demand p"
  by (auto simp: base_patterns_def split: if_splits)

lemma spec_weekend_multiplier_positive: "0 < spec_weekend_multiplier dow area"
  by (simp add: spec_weekend_multiplier_def)

lemma base_demand_value:
  assumes "map_of base_patterns area = Some p"
  shows "calculate_base_demand hour day_of_week area =
           Inr (base_demand p * spec_hour_multiplier p hour
                  * spec_weekend_multiplier day_of_week area)"
  using assms
  by (simp add: calculate_base_demand_def peak_multiplier_spec weekend_adjust_spec)

lemma tourist_pattern:
  "map_of base_patterns ''tourist'' = Some \<lparr>peak_hours = [10, 11, 14, 15], base_demand = 20\<rparr>"
  by (simp add: base_patterns_def)

text \<open>
  C3. For an archetype with a profile entry, \<open>calculate_base_demand\<close> returns the
  profile's base demand times the hour multiplier (1.5 at a peak hour; else 1.2 one hour
  after or before a peak hour; else 1.0 from 6 to 22; else 0.3) times the weekend
  multiplier (for \<open>day_of_week \<ge> 5\<close>: 0.6 for business_district and educational, 1.3
  for tourist, 1 otherwise; 1 on the other days). It holds for every integer hour and
  day of week, so in particular for hours 0 to 23 and days 0 to 6.
\<close>

theorem base_demand_formula:
  assumes "map_of base_patterns area = Some p"
  shows "calculate_base_demand hour day_of_week area =
           Inr (base_demand p * spec_hour_multiplier p hour
                  * spec_weekend_multiplier day_of_week area)"
  using assms by (rule base_demand_value)

theorem base_demand_formula_witness:
  "calculate_base_demand 7 6 ''tourist'' = Inr 26
   \<and> calculate_base_demand 10 2 ''tourist'' = Inr 30
   \<and> calculate_base_demand 9 2 ''tourist'' = Inr 24
   \<and> calculate_base_demand 2 5 ''tourist'' = Inr 7.8"
  using base_demand_formula [OF tourist_pattern, of 7 6]
    base_demand_formula [OF tourist_pattern, of 10 2]
    base_demand_formula [OF tourist_pattern, of 9 2]
    base_demand_formula [OF tourist_pattern, of 2 5]
  by (simp add: spec_hour_multiplier_def spec_weekend_multiplier_def)

text \<open>
  C6. For a fixed archetype with a profile entry and a fixed day of week, all four calls
  return a value, and the value at an exact peak hour is at least the value at a peak
  adjacent hour, which is at least the value at a generic daytime hour, which is at
  least the value at a night hour; the value at a night hour is strictly smaller than
  the value at a generic daytime hour.
\<close>

theorem base_demand_hour_class_order:
  assumes "map_of base_patterns area = Some p"
    and "exact_peak p h1" and "peak_adjacent p h2"
    and "generic_daytime p h3" and "night_hour p h4"
  shows "\<exists>v1 v2 v3 v4.
           calculate_base_demand h1 day_of_week area = Inr v1
         \<and> calculate_base_demand h2 day_of_week area = Inr v2
         \<and> calculate_base_demand h3 day_of_week area = Inr v3
         \<and> calculate_base_demand h4 day_of_week area = Inr v4
         \<and> v1 \<ge> v2 \<and> v2 \<ge> v3 \<and> v3 \<ge> v4 \<and> v4 < v3"
proof -
  let ?b = "base_demand p" and ?w = "spec_weekend_multiplier day_of_week area"
  have b: "0 < ?b" using assms(1) by (rule base_demand_positive)
  have w: "0 < ?w" by (rule spec_weekend_multiplier_positive)
  have m1: "spec_hour_multiplier p h1 = 1.5"
    using assms(2) by (simp add: spec_hour_multiplier_def exact_peak_def)
  have m2: "spec_hour_multiplier p h2 = 1.2"
    using assms(3) by (simp add: spec_hour_multiplier_def peak_adjacent_def exact_peak_def)
  have m3: "spec_hour_multiplier p h3 = 1.0"
    using assms(4) by (simp add: spec_hour_multiplier_def generic_daytime_def exact_peak_def)
  have m4: "spec_hour_multiplier p h4 = 0.3"
    using assms(5) by (simp add: spec_hour_multiplier_def night_hour_def exact_peak_def)
  have e1: "calculate_base_demand h1 day_of_week area = Inr (?b * 1.5 * ?w)"
    by (simp add: base_demand_value [OF assms(1)] m1)
  have e2: "calculate_base_demand h2 day_of_week area = Inr (?b * 1.2 * ?w)"
    by (simp add: base_demand_value [OF assms(1)] m2)
  have e3: "calculate_base_demand h3 day_of_week area = Inr (?b * 1.0 * ?w)"
    by (simp add: base_demand_value [OF assms(1)] m3)
  have e4: "calculate_base_demand h4 day_of_week area = Inr (?b * 0.3 * ?w)"
    by (simp add: base_demand_value [OF assms(1)] m4)
  have o1: "?b * 1.5 * ?w \<ge> ?b * 1.2 * ?w" using b w by simp
  have o2: "?b * 1.2 * ?w \<ge> ?b * 1.0 * ?w" using b w by simp
  have o3: "?b * 0.3 * ?w < ?b * 1.0 * ?w" using b w by simp
  have o4: "?b * 1.0 * ?w \<ge> ?b * 0.3 * ?w" using o3 by (rule less_imp_le)
  from e1 e2 e3 e4 o1 o2 o4 o3 show ?thesis by blast
qed

theorem base_demand_hour_class_order_witness:
  "calculate_base_demand 10 5 ''tourist'' = Inr 39
   \<and> calculate_base_demand 9 5 ''tourist'' = Inr 31.2
   \<and> calculate_base_demand 7 5 ''tourist'' = Inr 26
   \<and> calculate_base_demand 2 5 ''tourist'' = Inr 7.8
   \<and> (39::real) \<ge> 31.2 \<and> (31.2::real) \<ge> 26 \<and> (26::real) \<ge> 7.8 \<and> (7.8::real) < 26"
proof -
  let ?p = "\<lparr>peak_hours = [10, 11, 14, 15], base_demand = 20\<rparr>"
  have c1: "exact_peak ?p 10" by (simp add: exact_peak_def)
  have c2: "peak_adjacent ?p 9" by (simp add: peak_adjacent_def exact_peak_def)
  have c3: "generic_daytime ?p 7" by (simp add: generic_daytime_def exact_peak_def)
  have c4: "night_hour ?p 2" by (simp add: night_hour_def exact_peak_def)
  have v: "calculate_base_demand 10 5 ''tourist'' = Inr 39
   \<and> calculate_base_demand 9 5 ''tourist'' = Inr 31.2
   \<and> calculate_base_demand 7 5 ''tourist'' = Inr 26
   \<and> calculate_base_demand 2 5 ''tourist'' = Inr 7.8"
    by (simp add: calculate_base_demand_def tourist_pattern peak_multiplier_def
        weekend_adjust_def)
  from base_demand_hour_class_order [OF tourist_pattern c1 c2 c3 c4, of 5] v
  show ?thesis by simp
qed

section \<open>Weather\<close>

text \<open>
  C7. \<open>get_weather_condition\<close> is a function of the temperature and the precipitation
  alone: precipitation above 5 gives rainy; otherwise a temperature above 35 gives hot;
  otherwise a temperature below 15 gives cold; otherwise pleasant.
\<close>

theorem weather_condition_thresholds:
  "(precipitation > 5 \<longrightarrow> get_weather_condition temp precipitation = ''rainy'')
   \<and> (\<not> precipitation > 5 \<and> temp > 35
        \<longrightarrow> get_weather_condition temp precipitation = ''hot'')
   \<and> (\<not> precipitation > 5 \<and> \<not> temp > 35 \<and> temp < 15
        \<longrightarrow> get_weather_condition temp precipitation = ''cold'')
   \<and> (\<not> precipitation > 5 \<and> \<not> temp > 35 \<and> \<not> temp < 15
        \<longrightarrow> get_weather_condition temp precipitation = ''pleasant'')"
  by (simp add: get_weather_condition_def)

theorem weather_condition_thresholds_witness:
  "get_weather_condition 40 0 = ''hot''
   \<and> get_weather_condition 10 0 = ''cold''
   \<and> get_weather_condition 25 10 = ''rainy''
   \<and> get_weather_condition 25 0 = ''pleasant''"
  using weather_condition_thresholds [where temp = 40 and precipitation = 0]
    weather_condition_thresholds [where temp = 10 and precipitation = 0]
    weather_condition_thresholds [where temp = 25 and precipitation = 10]
    weather_condition_thresholds [where temp = 25 and precipitation = 0]
  by simp

text \<open>
  C10. The weather factor is the product of the temperature component (0.7, 0.8 or
  1.0), the rain component (0.4 or 1.0) and the air quality component (0.9 or 1.0); it
  is positive and at most 1, for every timestamp and every state of the random streams.
\<close>

theorem weather_factor_in_unit_interval:
  "fst (get_weather_factor t g) =
     temp_factor (ts_month t) * fst (rain_factor (ts_month t) g) * aqi_factor (ts_month t)
   \<and> temp_factor (ts_month t) \<in> {0.7, 0.8, 1.0}
   \<and> fst (rain_factor (ts_month t) g) \<in> {0.4, 1.0}
   \<and> aqi_factor (ts_month t) \<in> {0.9, 1.0}
   \<and> 0 < fst (get_weather_factor t g)
   \<and> fst (get_weather_factor t g) \<le> 1"
  by (simp add: get_weather_factor_def rain_factor_def temp_factor_def aqi_factor_def
      Let_def split: prod.splits)

section \<open>Loop invariants of the generators\<close>

lemma make_trip_fields:
  assumes "make_trip t a b c s g = Inr (row, g')"
  shows "trip_timestamp row = t" "trip_station_id row = station_id s"
    "trip_factors row = (a, b, c)" "0 \<le> trip_count row" "trip_hour row = ts_hour t"
  using assms
  by (auto simp: make_trip_def np_random_poisson_def trip_factors_def Let_def
      split: sum.splits if_splits)

lemma station_rows_fields:
  assumes "station_rows t a b c ss g = Inr (rows, g')"
  shows "map trip_station_id rows = map station_id ss
       \<and> (\<forall>r\<in>set rows. trip_timestamp r = t \<and> trip_factors r = (a, b, c)
              \<and> 0 \<le> trip_count r \<and> trip_hour r = ts_hour t)"
  using assms
proof (induction ss arbitrary: g rows)
  case Nil
  then show ?case by simp
next
  case (Cons s ss)
  from Cons.prems obtain row g1 rest where
    mk: "make_trip t a b c s g = Inr (row, g1)"
    and rec: "station_rows t a b c ss g1 = Inr (rest, g')"
    and rows: "rows = row # rest"
    by (auto split: sum.splits prod.splits)
  from Cons.IH [OF rec] make_trip_fields [OF mk] rows show ?case by simp
qed

lemma timestamp_rows_split:
  assumes "timestamp_rows locs tot (t # ts) processed g = Inr (rows, g')"
  obtains a b c g2 first g3 rest where
    "station_rows t a b c locs g2 = Inr (first, g3)"
    "timestamp_rows locs tot ts (processed + int (length locs)) g3 = Inr (rest, g')"
    "rows = first @ rest"
  using assms
  by (auto simp: Let_def split: sum.splits prod.splits if_splits)

lemma timestamp_rows_keys:
  assumes "timestamp_rows locs tot ts processed g = Inr (rows, g')"
  shows "map trip_key rows = concat (map (\<lambda>t. map (\<lambda>s. (t, station_id s)) locs) ts)"
  using assms
proof (induction ts arbitrary: processed g rows)
  case Nil
  then show ?case by simp
next
  case (Cons t ts)
  from Cons.prems obtain a b c g2 first g3 rest where
    st: "station_rows t a b c locs g2 = Inr (first, g3)"
    and rec: "timestamp_rows locs tot ts (processed + int (length locs)) g3 = Inr (rest, g')"
    and rows: "rows = first @ rest"
    by (rule timestamp_rows_split)
  have "map trip_key first = map (\<lambda>s. (t, station_id s)) locs"
  proof -
    from station_rows_fields [OF st]
    have ids: "map trip_station_id first = map station_id locs"
      and ts: "\<forall>r\<in>set first. trip_timestamp r = t" by auto
    have "map trip_key first = map (\<lambda>r. (t, trip_station_id r)) first"
      using ts by (simp add: trip_key_def)
    also have "\<dots> = map (\<lambda>i. (t, i)) (map trip_station_id first)" by (simp add: comp_def)
    also have "\<dots> = map (\<lambda>s. (t, station_id s)) locs" by (simp add: ids comp_def)
    finally show ?thesis .
  qed
  with Cons.IH [OF rec] rows show ?case by simp
qed

lemma timestamp_rows_count:
  assumes "timestamp_rows locs tot ts processed g = Inr (rows, g')"
  shows "\<forall>r\<in>set rows. 0 \<le> trip_count r"
  using assms
proof (induction ts arbitrary: processed g rows)
  case Nil
  then show ?case by simp
next
  case (Cons t ts)
  from Cons.prems obtain a b c g2 first g3 rest where
    st: "station_rows t a b c locs g2 = Inr (first, g3)"
    and rec: "timestamp_rows locs tot ts (processed + int (length locs)) g3 = Inr (rest, g')"
    and rows: "rows = first @ rest"
    by (rule timestamp_rows_split)
  from station_rows_fields [OF st] Cons.IH [OF rec] rows show ?case by auto
qed

lemma timestamp_rows_factors:
  assumes "timestamp_rows locs tot ts processed g = Inr (rows, g')" and "distinct ts"
  shows "\<exists>f. \<forall>r\<in>set rows. trip_factors r = f (trip_timestamp r) \<and> trip_timestamp r \<in> set ts"
  using assms
proof (induction ts arbitrary: processed g rows)
  case Nil
  then show ?case by simp
next
  case (Cons t ts)
  from Cons.prems(1) obtain a b c g2 first g3 rest where
    st: "station_rows t a b c locs g2 = Inr (first, g3)"
    and rec: "timestamp_rows locs tot ts (processed + int (length locs)) g3 = Inr (rest, g')"
    and rows: "rows = first @ rest"
    by (rule timestamp_rows_split)
  from Cons.prems(2) have t: "t \<notin> set ts" and d: "distinct ts" by simp_all
  from Cons.IH [OF rec d] obtain f where
    f: "\<forall>r\<in>set rest. trip_factors r = f (trip_timestamp r) \<and> trip_timestamp r \<in> set ts"
    by blast
  from station_rows_fields [OF st]
  have first: "\<forall>r\<in>set first. trip_timestamp r = t \<and> trip_factors r = (a, b, c)" by simp
  let ?f = "f(t := (a, b, c))"
  have "\<forall>r\<in>set rows. trip_factors r = ?f (trip_timestamp r) \<and> trip_timestamp r \<in> set (t # ts)"
    using f first t rows by auto
  then show ?case by blast
qed

lemma distinct_hours: "distinct (map (\<lambda>k. start + 3600 * int k) [0..<n])"
  by (simp add: distinct_map inj_on_def)

lemma distinct_date_range: "distinct (date_range start stop)"
proof (cases "stop < start")
  case True
  then show ?thesis by (simp add: date_range_def)
next
  case False
  then have "date_range start stop =
      map (\<lambda>k. start + 3600 * int k) [0..<Suc (nat ((stop - start) div 3600))]"
    by (simp only: date_range_def if_False)
  then show ?thesis by (simp only: distinct_hours)
qed

lemma random_random_nonneg: "0 \<le> fst (random_random g)"
  by (simp add: random_random_def py_raw_def)

lemma random_random_less: "fst (random_random g) < 1"
proof -
  have "k mod 2 ^ 53 < (2::nat) ^ 53" for k :: nat by simp
  then have "real (k mod 2 ^ 53) < 2 ^ 53" for k :: nat
    by (metis of_nat_less_iff of_nat_numeral of_nat_power)
  then show ?thesis
    by (simp add: random_random_def py_raw_def)
qed

lemma random_uniform_lower:
  assumes "a \<le> b"
  shows "a \<le> fst (random_uniform a b g)"
proof -
  have "0 \<le> (b - a) * fst (random_random g)"
    using assms random_random_nonneg by (simp add: mult_nonneg_nonneg)
  then show ?thesis
    by (simp add: random_uniform_def case_prod_beta)
qed

lemma get_event_factor_positive: "0 < fst (get_event_factor t g)"
proof -
  have "(1.2::real) \<le> fst (random_uniform 1.2 1.8 g')" for g'
    by (rule random_uniform_lower) simp
  then have "0 < fst (random_uniform 1.2 1.8 g')" for g'
    by (rule less_le_trans [rotated]) simp
  then show ?thesis
    by (simp add: get_event_factor_def case_prod_beta)
qed

lemma get_seasonal_factor_positive: "0 < get_seasonal_factor t"
  by (simp add: get_seasonal_factor_def Let_def)

lemma get_weather_factor_positive: "0 < fst (get_weather_factor t g)"
  by (simp add: get_weather_factor_def rain_factor_def temp_factor_def aqi_factor_def
      Let_def split: prod.splits)

lemma spec_hour_multiplier_positive: "0 < spec_hour_multiplier p hour"
  by (simp add: spec_hour_multiplier_def)

lemma calculate_base_demand_succeeds:
  assumes "map_of base_patterns area \<noteq> None"
  shows "\<exists>v. calculate_base_demand hour dow area = Inr v \<and> 0 < v"
proof -
  from assms obtain p where p: "map_of base_patterns area = Some p" by blast
  have "0 < base_demand p * spec_hour_multiplier p hour * spec_weekend_multiplier dow area"
    using base_demand_positive [OF p] spec_hour_multiplier_positive
      spec_weekend_multiplier_positive by simp
  with base_demand_value [OF p] show ?thesis by simp
qed

lemma make_trip_succeeds:
  assumes "map_of base_patterns (area_type s) \<noteq> None" and "0 < a" and "0 < b" and "0 < c"
  shows "\<exists>row g'. make_trip t a b c s g = Inr (row, g')"
proof -
  from calculate_base_demand_succeeds [OF assms(1)] obtain v where
    v: "calculate_base_demand (ts_hour t) (ts_weekday t) (area_type s) = Inr v" and "0 < v"
    by blast
  then have "\<not> v * a * b * c < 0" using assms(2-4) by (simp add: not_less)
  then show ?thesis
    by (simp add: make_trip_def Let_def v np_random_poisson_def)
qed

lemma station_rows_succeeds:
  assumes "\<forall>s\<in>set ss. map_of base_patterns (area_type s) \<noteq> None"
    and "0 < a" and "0 < b" and "0 < c"
  shows "\<exists>rows g'. station_rows t a b c ss g = Inr (rows, g')"
  using assms(1)
proof (induction ss arbitrary: g)
  case Nil
  then show ?case by simp
next
  case (Cons s ss)
  from Cons.prems have "map_of base_patterns (area_type s) \<noteq> None" by simp
  from make_trip_succeeds [OF this assms(2-4)] obtain row g1 where
    mk: "make_trip t a b c s g = Inr (row, g1)" by blast
  from Cons.IH [of g1] Cons.prems obtain rest g2 where
    "station_rows t a b c ss g1 = Inr (rest, g2)" by auto
  with mk show ?case by simp
qed

lemma timestamp_rows_succeeds:
  assumes "\<forall>s\<in>set locs. map_of base_patterns (area_type s) \<noteq> None" and "tot \<noteq> 0"
  shows "\<exists>rows g'. timestamp_rows locs tot ts processed g = Inr (rows, g')"
proof (induction ts arbitrary: processed g)
  case Nil
  then show ?case by simp
next
  case (Cons t ts)
  obtain a g1 where wf: "get_weather_factor t g = (a, g1)" by (cases "get_weather_factor t g")
  obtain c g2 where ef: "get_event_factor t g1 = (c, g2)" by (cases "get_event_factor t g1")
  have a: "0 < a" using get_weather_factor_positive [of t g] wf by simp
  have c: "0 < c" using get_event_factor_positive [of t g1] ef by simp
  from station_rows_succeeds [OF assms(1) a get_seasonal_factor_positive c]
  obtain first g3 where
    st: "station_rows t a (get_seasonal_factor t) c locs g2 = Inr (first, g3)" by blast
  from Cons.IH obtain rest g4 where
    "timestamp_rows locs tot ts (processed + int (length locs)) g3 = Inr (rest, g4)" by blast
  then show ?case using assms(2) wf ef st by (simp add: Let_def)
qed

lemma generate_trip_data_succeeds:
  assumes "\<forall>s\<in>set (station_locations self). map_of base_patterns (area_type s) \<noteq> None"
    and "num_stations self \<noteq> 0"
  shows "\<exists>rows g'. generate_trip_data self g = Inr (rows, g')"
proof (cases "date_range (start_date self) (end_date self) = []")
  case True
  then show ?thesis by (simp add: generate_trip_data_def)
next
  case False
  then have "int (length (date_range (start_date self) (end_date self))) * num_stations self \<noteq> 0"
    using assms(2) by simp
  from timestamp_rows_succeeds [OF assms(1) this] show ?thesis
    by (simp add: generate_trip_data_def Let_def)
qed


lemma major_areas_nonempty: "major_areas \<noteq> []"
  by (simp add: major_areas_def)

lemma anchor_types_have_profiles:
  "a \<in> set (map anchor_type major_areas) \<Longrightarrow> map_of base_patterns a \<noteq> None"
  by (auto simp: major_areas_def base_patterns_def)

lemma random_choice_member:
  assumes "xs \<noteq> []"
  shows "\<exists>x g'. random_choice xs g = Inr (x, g') \<and> x \<in> set xs"
  using assms by (simp add: random_choice_def case_prod_beta)

lemma make_station_succeeds:
  "\<exists>s g'. make_station i g = Inr (s, g') \<and> station_id s = i
     \<and> area_type s \<in> set (map anchor_type major_areas)"
proof -
  from random_choice_member [OF major_areas_nonempty, of g] obtain base g1 where
    "random_choice major_areas g = Inr (base, g1)" and "base \<in> set major_areas" by blast
  then show ?thesis by (simp add: make_station_def case_prod_beta)
qed

lemma stations_loop_succeeds:
  "\<exists>locs g'. stations_loop ids g = Inr (locs, g') \<and> map station_id locs = ids
     \<and> (\<forall>s\<in>set locs. area_type s \<in> set (map anchor_type major_areas))"
proof (induction ids arbitrary: g)
  case Nil
  then show ?case by simp
next
  case (Cons i ids)
  from make_station_succeeds [of i g] obtain s g1 where
    s: "make_station i g = Inr (s, g1)" "station_id s = i"
       "area_type s \<in> set (map anchor_type major_areas)" by blast
  from Cons.IH [of g1] obtain locs g2 where
    "stations_loop ids g1 = Inr (locs, g2)" "map station_id locs = ids"
    "\<forall>s\<in>set locs. area_type s \<in> set (map anchor_type major_areas)" by blast
  with s show ?case by simp
qed

lemma generate_station_locations_succeeds:
  "\<exists>locs g'. generate_station_locations n g = Inr (locs, g')
     \<and> map station_id locs = map int [0..<nat n]
     \<and> (\<forall>s\<in>set locs. area_type s \<in> set (map anchor_type major_areas))"
  unfolding generate_station_locations_def by (rule stations_loop_succeeds)


lemma date_range_one_day:
  assumes "23 * 3600 \<le> stop - start" and "stop - start < 24 * 3600"
  shows "date_range start stop = map (\<lambda>k. start + 3600 * int k) [0..<24]"
proof -
  have "(stop - start) div 3600 = 23" using assms by (simp add: div_pos_pos_trivial algebra_simps) 
  moreover have "\<not> stop < start" using assms by simp
  ultimately show ?thesis by (simp only: date_range_def if_False) simp
qed

lemma timestamp_rows_hours:
  assumes "timestamp_rows locs tot ts processed g = Inr (rows, g')"
  shows "\<forall>r\<in>set rows. trip_hour r = ts_hour (trip_timestamp r)"
  using assms
proof (induction ts arbitrary: processed g rows)
  case Nil
  then show ?case by simp
next
  case (Cons t ts)
  from Cons.prems obtain a b c g2 first g3 rest where
    st: "station_rows t a b c locs g2 = Inr (first, g3)"
    and rec: "timestamp_rows locs tot ts (processed + int (length locs)) g3 = Inr (rest, g')"
    and rows: "rows = first @ rest"
    by (rule timestamp_rows_split)
  from station_rows_fields [OF st] Cons.IH [OF rec] rows show ?case by auto
qed

lemma keys_as_product:
  "concat (map (\<lambda>t. map (\<lambda>s. (t, station_id s)) locs) ts) = List.product ts (map station_id locs)"
  by (induction ts) (simp_all add: comp_def)

lemma ts_hour_shift: "ts_hour (start + 3600 * k) = (start div 3600 + k) mod 24"
  by (simp add: ts_hour_def add.commute)

lemma hours_of_day:
  "ts_hour ` set (map (\<lambda>k. start + 3600 * int k) [0..<24]) = {0..23}"
proof -
  let ?a = "start div 3600"
  have "(\<lambda>k. (?a + int k) mod 24) ` {0..<24} = {0..23}"
  proof (intro equalityI subsetI)
    fix h assume "h \<in> (\<lambda>k. (?a + int k) mod 24) ` {0..<24}"
    then obtain k where "h = (?a + int k) mod 24" by blast
    then show "h \<in> {0..23}" by simp
  next
    fix h :: int assume h: "h \<in> {0..23}"
    let ?k = "nat ((h - ?a) mod 24)"
    have k: "?k \<in> {0..<24}" by simp
    have "(?a + int ?k) mod 24 = (?a + (h - ?a) mod 24) mod 24" by simp
    also have "\<dots> = (?a + (h - ?a)) mod 24" by (simp add: mod_add_right_eq)
    also have "\<dots> = h" using h by simp
    finally have "h = (?a + int ?k) mod 24" by simp
    with k show "h \<in> (\<lambda>k. (?a + int k) mod 24) ` {0..<24}" by blast
  qed
  then show ?thesis by (simp add: image_image ts_hour_shift del: upt_Suc)
qed

lemma init_succeeds:
  "\<exists>self g'. init start stop n city g = Inr (self, g')
     \<and> start_date self = start \<and> end_date self = stop \<and> num_stations self = n
     \<and> map station_id (station_locations self) = map int [0..<nat n]
     \<and> (\<forall>s\<in>set (station_locations self). map_of base_patterns (area_type s) \<noteq> None)"
proof -
  from generate_station_locations_succeeds [of n g] obtain locs g' where
    l: "generate_station_locations n g = Inr (locs, g')"
       "map station_id locs = map int [0..<nat n]"
       "\<forall>s\<in>set locs. area_type s \<in> set (map anchor_type major_areas)" by blast
  from l(3) have "\<forall>s\<in>set locs. map_of base_patterns (area_type s) \<noteq> None"
    using anchor_types_have_profiles by blast
  with l(1,2) show ?thesis by (simp add: init_def)
qed

lemma generate_trip_data_keys:
  assumes "generate_trip_data self g = Inr (rows, g')"
  shows "map trip_key rows =
           List.product (date_range (start_date self) (end_date self))
             (map station_id (station_locations self))"
    and "\<forall>r\<in>set rows. trip_hour r = ts_hour (trip_timestamp r)"
  using assms timestamp_rows_keys timestamp_rows_hours
  by (simp_all add: generate_trip_data_def Let_def keys_as_product)

lemma run_trip_data_rows:
  assumes "0 < n"
  shows "\<exists>rows g'. run_trip_data start stop n city g = Inr (rows, g')
     \<and> map trip_key rows = List.product (date_range start stop) (map int [0..<nat n])
     \<and> (\<forall>r\<in>set rows. trip_hour r = ts_hour (trip_timestamp r))"
proof -
  from init_succeeds [of start stop n city g] obtain self g1 where
    i: "init start stop n city g = Inr (self, g1)"
       "start_date self = start" "end_date self = stop" "num_stations self = n"
       "map station_id (station_locations self) = map int [0..<nat n]"
       "\<forall>s\<in>set (station_locations self). map_of base_patterns (area_type s) \<noteq> None"
    by blast
  have "num_stations self \<noteq> 0" using assms i(4) by simp
  from generate_trip_data_succeeds [OF i(6) this, of g1] obtain rows g2 where
    r: "generate_trip_data self g1 = Inr (rows, g2)" by blast
  from generate_trip_data_keys [OF r] i(2,3,5)
  have "map trip_key rows = List.product (date_range start stop) (map int [0..<nat n])"
    and "\<forall>r\<in>set rows. trip_hour r = ts_hour (trip_timestamp r)" by simp_all
  moreover have "run_trip_data start stop n city g = Inr (rows, g2)"
    using i(1) r by (simp add: run_trip_data_def)
  ultimately show ?thesis by blast
qed

lemma run_trip_data_row_count:
  assumes "0 < n"
  shows "row_count (run_trip_data start stop n city g) =
           Inr (length (date_range start stop) * nat n)"
proof -
  from run_trip_data_rows [OF assms, of start stop city g] obtain rows g' where
    r: "run_trip_data start stop n city g = Inr (rows, g')"
    and k: "map trip_key rows = List.product (date_range start stop) (map int [0..<nat n])"
    by blast
  have "length rows = length (map trip_key rows)" by simp
  also have "\<dots> = length (date_range start stop) * nat n" by (simp only: k length_product) simp
  finally show ?thesis using r by (simp add: row_count_def)
qed


lemma three_station_ids: "map int [0..<nat 3] = [0, 1, 2]"
  by (simp add: eval_nat_numeral)

lemma make_event_dates:
  assumes "make_event locs d g = Inr (evs, g')"
  shows "map event_date evs = [] \<or> map event_date evs = [d]"
  using assms
  by (auto simp: make_event_def split: prod.splits if_splits sum.splits)

lemma events_loop_dates:
  assumes "events_loop locs ds g = Inr (evs, g')" and "distinct ds"
  shows "distinct (map event_date evs) \<and> set (map event_date evs) \<subseteq> set ds"
  using assms
proof (induction ds arbitrary: g evs)
  case Nil
  then show ?case by simp
next
  case (Cons d ds)
  from Cons.prems(1) obtain first g1 rest where
    mk: "make_event locs d g = Inr (first, g1)"
    and rec: "events_loop locs ds g1 = Inr (rest, g')"
    and evs: "evs = first @ rest"
    by (auto split: sum.splits prod.splits)
  from Cons.prems(2) have d: "d \<notin> set ds" and dist: "distinct ds" by simp_all
  from Cons.IH [OF rec dist]
  have r: "distinct (map event_date rest)" "set (map event_date rest) \<subseteq> set ds" by simp_all
  from make_event_dates [OF mk] show ?case
  proof
    assume "map event_date first = []"
    with r evs show ?thesis by auto
  next
    assume "map event_date first = [d]"
    with r d evs show ?thesis by auto
  qed
qed

lemma unique_distinct: "distinct (unique xs)" "set (unique xs) = set xs"
  by (simp_all add: unique_def)

section \<open>Evaluation of the sample inputs\<close>

lemma str_int_small: "str_int 0 = ''0''" "str_int 1 = ''1''"
  by code_simp+

lemma title_concert: "title ''concert'' = ''Concert''"
  by code_simp

lemma jan1_calendar:
  "ts_month 1704067200 = 1" "ts_hour 1704067200 = 0" "ts_weekday 1704067200 = 0"
  "is_holiday 1704067200 = False" "ts_date 1704067200 = 19723" "ts_date 1704153600 = 19724"
  by code_simp+

lemma sample_random:
  "random_random (sample_rng_at k j) = (0, sample_rng_at (k + 1) j)"
  "random_uniform a b (sample_rng_at k j) = (a, sample_rng_at (k + 1) j)"
  "random_choice (x # xs) (sample_rng_at k j) = Inr (x, sample_rng_at (k + 1) j)"
  "random_randint 1000 50000 (sample_rng_at k j) = Inr (1000, sample_rng_at (k + 1) j)"
  by (simp_all add: random_uniform_def random_random_def random_choice_def
      random_randint_def py_raw_def sample_rng_at_def)

lemma sample_poisson:
  "0 \<le> lam \<Longrightarrow> np_random_poisson lam (sample_rng_at k j) =
     Inr (7 * int j - 3, sample_rng_at k (j + 1))"
  by (simp add: np_random_poisson_def sample_rng_at_def)

lemma sample_make_station:
  "make_station 0 (sample_rng_at k j) =
     Inr (sample_station 0 ''Station_0_Connaught_Place'', sample_rng_at (k + 3) j)"
  "make_station 1 (sample_rng_at k j) =
     Inr (sample_station 1 ''Station_1_Connaught_Place'', sample_rng_at (k + 3) j)"
  by (simp_all add: make_station_def major_areas_def sample_random
      str_int_small replace_space_def sample_station_def eval_nat_numeral)

lemma sample_generate_station_locations:
  "generate_station_locations 2 (sample_rng_at 0 0) =
     Inr ([sample_station 0 ''Station_0_Connaught_Place'',
           sample_station 1 ''Station_1_Connaught_Place''], sample_rng_at 6 0)"
proof -
  have ids: "map int [0..<nat 2] = [0, 1]" by (simp add: eval_nat_numeral)
  have "stations_loop [0, 1] (sample_rng_at 0 0) =
      Inr ([sample_station 0 ''Station_0_Connaught_Place'',
            sample_station 1 ''Station_1_Connaught_Place''], sample_rng_at 6 0)"
    by (simp add: sample_make_station)
  then show ?thesis
    by (simp only: generate_station_locations_def ids)
qed

lemma sample_init:
  "init 1704067200 1704067200 2 ''Delhi'' (sample_rng_at 0 0) =
     Inr (sample_generator, sample_rng_at 6 0)"
  by (simp only: init_def sample_generate_station_locations sample_generator_def
      sum.case prod.case)

lemma sample_factors:
  "get_weather_factor 1704067200 g = (0.72, g)"
  "get_seasonal_factor 1704067200 = 1"
  "get_event_factor t (sample_rng_at k j) = (1.2, sample_rng_at (k + 2) j)"
  by (simp_all add: get_weather_factor_def get_seasonal_factor_def jan1_calendar
      rain_factor_def temp_factor_def aqi_factor_def get_event_factor_def sample_random)

lemma sample_base_demand: "calculate_base_demand 0 0 ''business_district'' = Inr 7.5"
  by (simp add: calculate_base_demand_def base_patterns_def peak_multiplier_def
      weekend_adjust_def)

lemma sample_make_trip:
  "a = 0.72 \<Longrightarrow> c = 1.2 \<Longrightarrow>
   make_trip 1704067200 a 1 c (sample_station i nm) (sample_rng_at k j) =
     Inr (sample_trip i nm (max 0 (7 * int j - 3)), sample_rng_at k (j + 1))"
  by (simp add: make_trip_def jan1_calendar sample_station_def sample_base_demand
      sample_poisson sample_trip_def)

lemma sample_station_rows:
  "a = 0.72 \<Longrightarrow> c = 1.2 \<Longrightarrow>
   station_rows 1704067200 a 1 c (station_locations sample_generator)
       (sample_rng_at k 0) = Inr (sample_trips, sample_rng_at k 2)"
  by (simp add: sample_generator_def sample_make_trip sample_trips_def numeral_2_eq_2)

lemma sample_generate_trip_data:
  "generate_trip_data sample_generator (sample_rng_at 6 0) =
     Inr (sample_trips, sample_rng_at 8 2)"
proof -
  have dr: "date_range (start_date sample_generator) (end_date sample_generator) = [1704067200]"
    by (simp add: sample_generator_def date_range_def)
  have n: "num_stations sample_generator = 2" by (simp add: sample_generator_def)
  show ?thesis
    by (simp add: generate_trip_data_def dr n sample_factors sample_station_rows)
qed

lemma sample_make_event:
  "make_event (station_locations sample_generator) d (sample_rng_at k j) =
     Inr ([sample_event d], sample_rng_at (k + 5) j)"
  by (simp add: make_event_def sample_random event_types_def sample_generator_def
      sample_station_def title_concert sample_event_def eval_nat_numeral)

lemma sample_unique_dates:
  "unique (map (\<lambda>r. ts_date (trip_timestamp r))
     (sample_trips @ [(hd sample_trips)\<lparr>trip_timestamp := 1704153600\<rparr>])) = [19723, 19724]"
  by (simp add: sample_trips_def sample_trip_def jan1_calendar unique_def)

lemma sample_generate_events_data:
  "generate_events_data sample_generator
       (sample_trips @ [(hd sample_trips)\<lparr>trip_timestamp := 1704153600\<rparr>]) (sample_rng_at 8 2) =
     Inr ([sample_event 19723, sample_event 19724], sample_rng_at 18 2)"
proof -
  have ne: "sample_trips @ [(hd sample_trips)\<lparr>trip_timestamp := 1704153600\<rparr>] \<noteq> []" by simp
  show ?thesis
    by (simp only: generate_events_data_def ne if_False Let_def sample_unique_dates)
      (simp add: sample_make_event)
qed

section \<open>Trip data\<close>

text \<open>
  C1. Every row that \<open>generate_trip_data\<close> returns has a trip count that is an integer
  and is not negative, whatever the generator object (date range, stations) and whatever
  the random streams: the Poisson sample, here any integer, goes through \<open>max 0\<close>
  before the row is built.
\<close>

theorem trip_count_nonnegative:
  assumes "generate_trip_data self g = Inr (rows, g')" and "r \<in> set rows"
  shows "0 \<le> trip_count r"
proof -
  from assms(1) have "\<forall>r\<in>set rows. 0 \<le> trip_count r"
    unfolding generate_trip_data_def Let_def by (rule timestamp_rows_count)
  with assms(2) show ?thesis by blast
qed

theorem trip_count_nonnegative_witness:
  "generate_trip_data sample_generator (sample_rng_at 6 0) =
     Inr (sample_trips, sample_rng_at 8 2)
   \<and> map trip_count sample_trips = [0, 4]
   \<and> 0 \<le> trip_count (sample_trip 0 ''Station_0_Connaught_Place'' 0)"
proof -
  have "sample_trip 0 ''Station_0_Connaught_Place'' 0 \<in> set sample_trips"
    by (simp add: sample_trips_def)
  from trip_count_nonnegative [OF sample_generate_trip_data this] sample_generate_trip_data
  show ?thesis by (simp add: sample_trips_def sample_trip_def)
qed

text \<open>
  C4. Within one call of \<open>generate_trip_data\<close>, two returned rows with the same
  timestamp carry the same weather factor, the same seasonal factor and the same event
  factor: the factors are computed once per timestamp, before the loop over the
  stations, and the timestamps of the date range are distinct.
\<close>

theorem factors_shared_per_timestamp:
  assumes "generate_trip_data self g = Inr (rows, g')"
    and "r1 \<in> set rows" and "r2 \<in> set rows"
    and "trip_timestamp r1 = trip_timestamp r2"
  shows "trip_weather_factor r1 = trip_weather_factor r2
       \<and> trip_seasonal_factor r1 = trip_seasonal_factor r2
       \<and> trip_event_factor r1 = trip_event_factor r2"
proof -
  from assms(1) have "timestamp_rows (station_locations self)
      (int (length (date_range (start_date self) (end_date self))) * num_stations self)
      (date_range (start_date self) (end_date self)) 0 g = Inr (rows, g')"
    by (simp add: generate_trip_data_def Let_def)
  from timestamp_rows_factors [OF this distinct_date_range] obtain f where
    "\<forall>r\<in>set rows. trip_factors r = f (trip_timestamp r)" by blast
  with assms(2-4) have "trip_factors r1 = trip_factors r2" by simp
  then show ?thesis by (simp add: trip_factors_def)
qed

theorem factors_shared_per_timestamp_witness:
  "generate_trip_data sample_generator (sample_rng_at 6 0) =
     Inr (sample_trips, sample_rng_at 8 2)
   \<and> trip_timestamp (sample_trip 0 ''Station_0_Connaught_Place'' 0) =
       trip_timestamp (sample_trip 1 ''Station_1_Connaught_Place'' 4)
   \<and> trip_weather_factor (sample_trip 0 ''Station_0_Connaught_Place'' 0) =
       trip_weather_factor (sample_trip 1 ''Station_1_Connaught_Place'' 4)
   \<and> trip_seasonal_factor (sample_trip 0 ''Station_0_Connaught_Place'' 0) =
       trip_seasonal_factor (sample_trip 1 ''Station_1_Connaught_Place'' 4)
   \<and> trip_event_factor (sample_trip 0 ''Station_0_Connaught_Place'' 0) =
       trip_event_factor (sample_trip 1 ''Station_1_Connaught_Place'' 4)
   \<and> trip_event_factor (sample_trip 0 ''Station_0_Connaught_Place'' 0) = 1.2"
proof -
  have m: "sample_trip 0 ''Station_0_Connaught_Place'' 0 \<in> set sample_trips"
    "sample_trip 1 ''Station_1_Connaught_Place'' 4 \<in> set sample_trips"
    by (simp_all add: sample_trips_def)
  have t: "trip_timestamp (sample_trip 0 ''Station_0_Connaught_Place'' 0) =
       trip_timestamp (sample_trip 1 ''Station_1_Connaught_Place'' 4)"
    by (simp add: sample_trip_def)
  have e: "trip_event_factor (sample_trip 0 ''Station_0_Connaught_Place'' 0) = 1.2"
    by (simp add: sample_trip_def)
  from factors_shared_per_timestamp [OF sample_generate_trip_data m t]
    sample_generate_trip_data t e
  show ?thesis by simp
qed

text \<open>
  C5. When \<open>end_date\<close> is earlier than \<open>start_date\<close>, \<open>generate_trip_data\<close> returns
  the empty list of rows and raises nothing, for every list of stations and every state
  of the random streams; it consumes no random draw.
\<close>

theorem inverted_range_gives_no_rows:
  assumes "end_date self < start_date self"
  shows "generate_trip_data self g = Inr ([], g)"
  using assms by (simp add: generate_trip_data_def date_range_def)

theorem inverted_range_gives_no_rows_witness:
  "generate_trip_data (sample_generator\<lparr>end_date := 1704063600\<rparr>) (sample_rng_at 6 0) =
     Inr ([], sample_rng_at 6 0)"
  using inverted_range_gives_no_rows
    [of "sample_generator\<lparr>end_date := 1704063600\<rparr>" "sample_rng_at 6 0"]
  by (simp add: sample_generator_def)

text \<open>
  C2, as the specification states it, fails: a range of one day given by its date
  (\<open>start_date = end_date\<close>, midnight of 2024-01-01) has a single hourly instant and
  gives 3 rows for 3 stations, and a range from one date to the next (2024-01-01 to
  2024-01-02) has 25 instants and gives 75 rows; neither gives 72.
\<close>

theorem one_day_range_row_count_counterexample:
  "row_count (run_trip_data 1704067200 1704067200 3 ''Delhi'' (sample_rng_at 0 0)) = Inr 3
   \<and> row_count (run_trip_data 1704067200 1704153600 3 ''Delhi'' (sample_rng_at 0 0)) = Inr 75"
proof -
  have "length (date_range 1704067200 1704067200) = 1"
    and "length (date_range 1704067200 1704153600) = 25"
    by (simp_all add: date_range_def)
  then show ?thesis
    by (simp add: run_trip_data_row_count)
qed

text \<open>
  C2, amended. When \<open>end_date\<close> is at least 23 hours and less than 24 hours after
  \<open>start_date\<close> (from 00:00 to 23:00 of one day, for example), a generator built with
  \<open>num_stations = 3\<close> returns exactly 72 rows, whose (timestamp, station id) pairs are
  distinct and whose (hour, station id) pairs are all of \<open>{0..23} \<times> {0, 1, 2}\<close>.
\<close>

theorem one_day_of_hours_rows:
  assumes "23 * 3600 \<le> stop - start" and "stop - start < 24 * 3600"
  shows "\<exists>rows g'. run_trip_data start stop 3 city g = Inr (rows, g')
     \<and> length rows = 72
     \<and> distinct (map trip_key rows)
     \<and> set (map (\<lambda>r. (trip_hour r, trip_station_id r)) rows) = {0..23} \<times> {0, 1, 2}"
proof -
  let ?ts = "map (\<lambda>k. start + 3600 * int k) [0..<24]"
  have "(0::int) < 3" by simp
  from run_trip_data_rows [OF this, of start stop city g] obtain rows g' where
    r: "run_trip_data start stop 3 city g = Inr (rows, g')"
    and k: "map trip_key rows = List.product ?ts [0, 1, 2]"
    and h: "\<forall>r\<in>set rows. trip_hour r = ts_hour (trip_timestamp r)"
    by (auto simp only: date_range_one_day [OF assms] three_station_ids)
  have "length rows = length (map trip_key rows)" by simp
  also have "\<dots> = 72" by (simp only: k length_product) simp
  finally have len: "length rows = 72" .
  have "distinct (List.product ?ts [0, 1, 2 :: int])"
    by (rule distinct_product) (simp_all only: distinct_hours, simp)
  then have dist: "distinct (map trip_key rows)" by (simp only: k)
  have keys: "trip_key ` set rows = set ?ts \<times> {0, 1, 2}"
  proof -
    have "trip_key ` set rows = set (map trip_key rows)" by simp
    also have "\<dots> = set ?ts \<times> set [0, 1, 2]" by (simp only: k set_product)
    finally show ?thesis by simp
  qed
  have "set (map (\<lambda>r. (trip_hour r, trip_station_id r)) rows)
      = (\<lambda>r. (ts_hour (trip_timestamp r), trip_station_id r)) ` set rows"
    using h by (auto simp: image_iff)
  also have "\<dots> = (\<lambda>(t, i). (ts_hour t, i)) ` (trip_key ` set rows)"
    by (simp add: image_image trip_key_def)
  also have "\<dots> = (\<lambda>(t, i). (ts_hour t, i)) ` (set ?ts \<times> {0, 1, 2})"
    by (simp only: keys)
  also have "\<dots> = ts_hour ` set ?ts \<times> {0, 1, 2}"
    by (auto simp: image_iff)
  also have "\<dots> = {0..23} \<times> {0, 1, 2}" by (simp only: hours_of_day)
  finally show ?thesis using r len dist by blast
qed

theorem one_day_of_hours_rows_witness:
  "row_count (run_trip_data 1704067200 1704150000 3 ''Delhi'' (sample_rng_at 0 0)) = Inr 72"
proof -
  have "(23::int) * 3600 \<le> 1704150000 - 1704067200"
    and "(1704150000::int) - 1704067200 < 24 * 3600" by simp_all
  from one_day_of_hours_rows [OF this, of "''Delhi''" "sample_rng_at 0 0"]
  show ?thesis by (auto simp: row_count_def)
qed

section \<open>Station registry\<close>

text \<open>
  C9. \<open>generate_station_locations\<close> always returns a list of stations, and every
  station of it has an area type of the anchor catalogue \<open>major_areas\<close>; each such area
  type has an entry in \<open>base_patterns\<close>, so \<open>calculate_base_demand\<close> returns a value
  for it, at every hour and day of week, and never the missing key error.
\<close>

theorem registry_area_types_have_profiles:
  "\<exists>locs g'. generate_station_locations n g = Inr (locs, g')
     \<and> (\<forall>s\<in>set locs.
           area_type s \<in> set (map anchor_type major_areas)
         \<and> map_of base_patterns (area_type s) \<noteq> None
         \<and> (\<forall>hour day_of_week. \<exists>v.
               calculate_base_demand hour day_of_week (area_type s) = Inr v))"
proof -
  from generate_station_locations_succeeds [of n g] obtain locs g' where
    l: "generate_station_locations n g = Inr (locs, g')"
       "\<forall>s\<in>set locs. area_type s \<in> set (map anchor_type major_areas)" by blast
  have "area_type s \<in> set (map anchor_type major_areas)
         \<and> map_of base_patterns (area_type s) \<noteq> None
         \<and> (\<forall>hour day_of_week. \<exists>v.
               calculate_base_demand hour day_of_week (area_type s) = Inr v)"
    if "s \<in> set locs" for s
  proof -
    from that l(2) have a: "area_type s \<in> set (map anchor_type major_areas)" by blast
    then have p: "map_of base_patterns (area_type s) \<noteq> None"
      by (rule anchor_types_have_profiles)
    from calculate_base_demand_succeeds [OF p] a p show ?thesis by blast
  qed
  with l(1) show ?thesis by blast
qed

theorem registry_area_types_have_profiles_witness:
  "generate_station_locations 2 (sample_rng_at 0 0) =
     Inr ([sample_station 0 ''Station_0_Connaught_Place'',
           sample_station 1 ''Station_1_Connaught_Place''], sample_rng_at 6 0)
   \<and> area_type (sample_station 0 ''Station_0_Connaught_Place'')
        \<in> set (map anchor_type major_areas)
   \<and> map_of base_patterns (area_type (sample_station 0 ''Station_0_Connaught_Place''))
        \<noteq> None
   \<and> (\<exists>v. calculate_base_demand 0 0
              (area_type (sample_station 0 ''Station_0_Connaught_Place'')) = Inr v)"
proof -
  from registry_area_types_have_profiles [of 2 "sample_rng_at 0 0"]
  obtain locs g' where
    l: "generate_station_locations 2 (sample_rng_at 0 0) = Inr (locs, g')"
    and p: "\<forall>s\<in>set locs.
           area_type s \<in> set (map anchor_type major_areas)
         \<and> map_of base_patterns (area_type s) \<noteq> None
         \<and> (\<forall>hour day_of_week. \<exists>v.
               calculate_base_demand hour day_of_week (area_type s) = Inr v)"
    by blast
  from l have "locs = [sample_station 0 ''Station_0_Connaught_Place'',
           sample_station 1 ''Station_1_Connaught_Place'']"
    by (simp add: sample_generate_station_locations)
  then have "sample_station 0 ''Station_0_Connaught_Place'' \<in> set locs" by simp
  with p sample_generate_station_locations show ?thesis by blast
qed

section \<open>Events data\<close>

text \<open>
  C8. The events that \<open>generate_events_data\<close> returns have pairwise distinct dates,
  and each of these dates is the date of some row of the trip table: the loop visits
  every distinct date once and appends no row or one row for it (one row when the draw
  of \<^verbatim>\<open>random.random()\<close> is below 0.1).
\<close>

theorem at_most_one_event_per_date:
  assumes "generate_events_data self trip_data g = Inr (events, g')"
  shows "distinct (map event_date events)
       \<and> set (map event_date events) \<subseteq> set (map (\<lambda>r. ts_date (trip_timestamp r)) trip_data)"
proof -
  let ?dates = "map (\<lambda>r. ts_date (trip_timestamp r)) trip_data"
  from assms have "events_loop (station_locations self) (unique ?dates) g = Inr (events, g')"
    by (simp add: generate_events_data_def Let_def split: if_splits)
  from events_loop_dates [OF this unique_distinct(1)] show ?thesis
    by (simp only: unique_distinct(2))
qed

theorem at_most_one_event_per_date_witness:
  "generate_events_data sample_generator
       (sample_trips @ [(hd sample_trips)\<lparr>trip_timestamp := 1704153600\<rparr>]) (sample_rng_at 8 2) =
     Inr ([sample_event 19723, sample_event 19724], sample_rng_at 18 2)
   \<and> distinct (map event_date [sample_event 19723, sample_event 19724])"
  using at_most_one_event_per_date [OF sample_generate_events_data]
    sample_generate_events_data
  by simp

end
